theory Spec2Isabelle
  imports Complex_Main
begin

section \<open>The testimonial carousel: scroll state, navigation and announcements\<close>

text \<open>
  A shallow embedding of the component in
  \<^verbatim>\<open>testimonial_section_frontend/src/components/TestimonialCarousel.js\<close>. It keeps
  three pieces of React state (\<^verbatim>\<open>canScrollLeft\<close>, \<^verbatim>\<open>canScrollRight\<close>, \<^verbatim>\<open>activeIndex\<close>), reads
  the geometry of a scroll container through \<^verbatim>\<open>containerRef.current\<close> and writes the
  \<^verbatim>\<open>textContent\<close> of a live region through \<^verbatim>\<open>liveRef.current\<close>.
\<close>

subsection \<open>JavaScript numbers\<close>

text \<open>
  Geometry values are JavaScript numbers: IEEE 754 binary64 values. What the DOM reports
  (\<^verbatim>\<open>scrollLeft\<close>, \<^verbatim>\<open>scrollWidth\<close>, \<^verbatim>\<open>clientWidth\<close>, \<^verbatim>\<open>offsetLeft\<close>) is finite. A finite
  double is a pair \<open>(m, e)\<close> standing for \<open>m * 2 ^ e\<close>, with a significand of at most 53
  bits and an exponent between \<open>-1074\<close> and \<open>971\<close>; the type \<open>double\<close> holds exactly these
  pairs, and \<open>valueOf\<close> gives the value of one. The two zeros are not told apart: no
  operation of the code distinguishes them.
\<close>

definition isDouble :: "int \<times> int \<Rightarrow> bool" where
  "isDouble d = (case d of (m, e) \<Rightarrow> \<bar>m\<bar> < 2 ^ 53 \<and> - 1074 \<le> e \<and> e \<le> 971)"

typedef double = "{d. isDouble d}"
  by (rule exI [of _ "(0, 0)"]) (simp add: isDouble_def)

text \<open>The real number \<open>m * 2 ^ e\<close>.\<close>

definition dyadicValue :: "int \<Rightarrow> int \<Rightarrow> real" where
  "dyadicValue m e = of_int m * 2 powi e"

definition valueOf :: "double \<Rightarrow> real" where
  "valueOf d = (case Rep_double d of (m, e) \<Rightarrow> dyadicValue m e)"

text \<open>The double \<open>m * 2 ^ e\<close>, for a pair within the bounds above.\<close>

definition dbl :: "int \<Rightarrow> int \<Rightarrow> double" where
  "dbl m e = Abs_double (m, e)"

text \<open>
  The result of one arithmetic operation on finite doubles: a finite value (always that
  of a double) or an infinity after overflow. Such an operation never yields NaN.
\<close>

datatype number = Finite real | PosInfinity | NegInfinity

definition toNumber :: "double \<Rightarrow> number" where
  "toNumber d = Finite (valueOf d)"

text \<open>The number of binary digits of a natural number.\<close>

function bits :: "nat \<Rightarrow> nat" where
  "bits n = (if n = 0 then 0 else Suc (bits (n div 2)))"
  by pat_completeness auto
termination
  by (relation "measure (\<lambda>n. n)") auto

declare bits.simps [simp del]

text \<open>
  Rounding the exact result \<open>m * 2 ^ e\<close> of an operation to the nearest double, ties to
  the even significand (the rounding mode of JavaScript). \<open>shiftOf\<close> is the number of low
  bits that do not fit: those beyond 53 significant bits, or below the least exponent
  \<open>-1074\<close>; \<open>roundEven m k\<close> is \<open>m / 2 ^ k\<close> rounded to the nearest integer, ties to even;
  a rounded value of magnitude \<open>2 ^ 1024\<close> or more overflows to an infinity.
\<close>

definition shiftOf :: "int \<Rightarrow> int \<Rightarrow> int" where
  "shiftOf m e = max (int (bits (nat \<bar>m\<bar>)) - 53) (- 1074 - e)"

definition roundEven :: "int \<Rightarrow> nat \<Rightarrow> int" where
  "roundEven m k =
     (let q = m div 2 ^ k; r = m mod 2 ^ k; half = 2 ^ (k - 1)
      in if r < half then q
         else if half < r then q + 1
         else if even q then q else q + 1)"

definition overflowCheck :: "int \<Rightarrow> int \<Rightarrow> number" where
  "overflowCheck m e =
     (if 1024 < int (bits (nat \<bar>m\<bar>)) + e
      then (if 0 < m then PosInfinity else NegInfinity)
      else Finite (dyadicValue m e))"

definition roundDouble :: "int \<Rightarrow> int \<Rightarrow> number" where
  "roundDouble m e =
     (let k = shiftOf m e
      in if 0 < k then overflowCheck (roundEven m (nat k)) (e + k) else overflowCheck m e)"

text \<open>
  \<^verbatim>\<open>a + b\<close>, \<^verbatim>\<open>a - b\<close> and \<^verbatim>\<open>a * b\<close> on doubles: the exact result, computed on the
  significands brought to the common exponent, then rounded once.
\<close>

definition fadd :: "double \<Rightarrow> double \<Rightarrow> number" where
  "fadd a b =
     (case (Rep_double a, Rep_double b) of
        ((ma, ea), (mb, eb)) \<Rightarrow>
          (let e = min ea eb
           in roundDouble (ma * 2 ^ nat (ea - e) + mb * 2 ^ nat (eb - e)) e))"

definition fsub :: "double \<Rightarrow> double \<Rightarrow> number" where
  "fsub a b =
     (case (Rep_double a, Rep_double b) of
        ((ma, ea), (mb, eb)) \<Rightarrow>
          (let e = min ea eb
           in roundDouble (ma * 2 ^ nat (ea - e) - mb * 2 ^ nat (eb - e)) e))"

definition fmul :: "double \<Rightarrow> double \<Rightarrow> number" where
  "fmul a b =
     (case (Rep_double a, Rep_double b) of
        ((ma, ea), (mb, eb)) \<Rightarrow> roundDouble (ma * mb) (ea + eb))"

text \<open>\<^verbatim>\<open>Math.abs\<close>, which is exact.\<close>

fun fabs :: "number \<Rightarrow> number" where
  "fabs (Finite x) = Finite \<bar>x\<bar>"
| "fabs PosInfinity = PosInfinity"
| "fabs NegInfinity = PosInfinity"

text \<open>\<^verbatim>\<open>a < b\<close>; \<^verbatim>\<open>a > b\<close> is \<open>lessNumber b a\<close>.\<close>

fun lessNumber :: "number \<Rightarrow> number \<Rightarrow> bool" where
  "lessNumber (Finite x) (Finite y) = (x < y)"
| "lessNumber (Finite x) PosInfinity = True"
| "lessNumber NegInfinity (Finite y) = True"
| "lessNumber NegInfinity PosInfinity = True"
| "lessNumber a b = False"

subsection \<open>Data model\<close>

text \<open>
  The scroll container as the code reads it. \<^verbatim>\<open>children\<close> holds the \<^verbatim>\<open>offsetLeft\<close> of each
  child element, in document order; it is \<open>None\<close> where the property is missing, which
  the code covers with \<^verbatim>\<open>el.children || []\<close>.
\<close>

record container =
  scrollLeft :: double
  scrollWidth :: double
  clientWidth :: double
  children :: "double list option"

text \<open>
  The state of one rendered carousel: the three \<^verbatim>\<open>useState\<close> cells and the text of the
  live region (\<open>None\<close> while \<^verbatim>\<open>liveRef.current\<close> is null).
\<close>

record carousel =
  canScrollLeft :: bool
  canScrollRight :: bool
  activeIndex :: nat
  liveText :: "string option"

text \<open>The initial values of the \<^verbatim>\<open>useState\<close> calls.\<close>

definition initialState :: "string option \<Rightarrow> carousel" where
  "initialState live =
     \<lparr>canScrollLeft = False, canScrollRight = True, activeIndex = 0, liveText = live\<rparr>"

subsection \<open>updateScrollState\<close>

text \<open>\<^verbatim>\<open>Array.from(el.children || [])\<close>\<close>

definition childList :: "container \<Rightarrow> double list" where
  "childList el = (case children el of None \<Rightarrow> [] | Some cs \<Rightarrow> cs)"

text \<open>
  The body of \<^verbatim>\<open>children.forEach((child, idx) => ...)\<close>: the remaining children, the index
  of the first of them, and the two loop variables \<^verbatim>\<open>(closestIdx, closestDelta)\<close>.
\<close>

fun forEachChild :: "double \<Rightarrow> double list \<Rightarrow> nat \<Rightarrow> nat \<times> number \<Rightarrow> nat \<times> number" where
  "forEachChild sl [] idx acc = acc"
| "forEachChild sl (offsetLeft # rest) idx (closestIdx, closestDelta) =
     (let delta = fabs (fsub offsetLeft sl)
      in if lessNumber delta closestDelta
         then forEachChild sl rest (Suc idx) (idx, delta)
         else forEachChild sl rest (Suc idx) (closestIdx, closestDelta))"

text \<open>
  The value passed to \<^verbatim>\<open>setActiveIndex\<close> when there are children; the loop starts from
  \<^verbatim>\<open>closestIdx = 0\<close> and \<^verbatim>\<open>closestDelta = Number.POSITIVE_INFINITY\<close>.
\<close>

definition closestIdx :: "double \<Rightarrow> double list \<Rightarrow> nat" where
  "closestIdx sl cs = fst (forEachChild sl cs 0 (0, PosInfinity))"

text \<open>
  \<^verbatim>\<open>updateScrollState\<close>, given the value of \<^verbatim>\<open>containerRef.current\<close> at the call: nothing
  happens on a null reference; otherwise both flags are set, from \<^verbatim>\<open>scrollLeft > 0\<close> and
  \<^verbatim>\<open>scrollLeft + clientWidth < scrollWidth - 1\<close>, and the active index is set when the
  child list is not empty.
\<close>

definition updateScrollState :: "container option \<Rightarrow> carousel \<Rightarrow> carousel" where
  "updateScrollState ref st =
     (case ref of
        None \<Rightarrow> st
      | Some el \<Rightarrow>
          (let st1 = st\<lparr>canScrollLeft := lessNumber (toNumber (dbl 0 0)) (toNumber (scrollLeft el))\<rparr>;
               st2 = st1\<lparr>canScrollRight :=
                      lessNumber (fadd (scrollLeft el) (clientWidth el))
                        (fsub (scrollWidth el) (dbl 1 0))\<rparr>;
               cs = childList el
           in if cs \<noteq> [] then st2\<lparr>activeIndex := closestIdx (scrollLeft el) cs\<rparr> else st2))"

subsection \<open>scrollByViewport and onKeyDown\<close>

text \<open>The argument of \<^verbatim>\<open>el.scrollBy\<close>.\<close>

datatype scrollBehavior = Smooth | Instant | Auto

record scrollToOptions =
  left :: number
  behavior :: scrollBehavior

text \<open>
  \<^verbatim>\<open>scrollByViewport(dir)\<close>: the calls of \<^verbatim>\<open>el.scrollBy\<close> it makes, in order (none on a null
  reference, one otherwise). Every call site passes \<open>dir\<close>, so the parameter's default of 1
  never applies.
\<close>

definition scrollByViewport :: "double \<Rightarrow> container option \<Rightarrow> scrollToOptions list" where
  "scrollByViewport dir ref =
     (case ref of
        None \<Rightarrow> []
      | Some el \<Rightarrow> [\<lparr>left = fmul dir (clientWidth el), behavior = Smooth\<rparr>])"

text \<open>
  What \<^verbatim>\<open>onKeyDown\<close> does with a key event: whether \<^verbatim>\<open>e.preventDefault()\<close> was called,
  and the scroll requests made.
\<close>

record keyOutcome =
  defaultPrevented :: bool
  scrollCalls :: "scrollToOptions list"

definition onKeyDown :: "string \<Rightarrow> container option \<Rightarrow> keyOutcome" where
  "onKeyDown key ref =
     (if key = ''ArrowRight''
      then \<lparr>defaultPrevented = True, scrollCalls = scrollByViewport (dbl 1 0) ref\<rparr>
      else if key = ''ArrowLeft''
      then \<lparr>defaultPrevented = True, scrollCalls = scrollByViewport (dbl (- 1) 0) ref\<rparr>
      else \<lparr>defaultPrevented = False, scrollCalls = []\<rparr>)"

subsection \<open>Testimonial items and the default list\<close>

text \<open>An \<^verbatim>\<open>id\<close> is a string or a number.\<close>

datatype itemId = IdNumber int | IdString string

text \<open>
  One testimonial. Strings are byte lists here; the two non-ASCII characters of the
  default quotes are written as their UTF-8 bytes. The rating is optional.
\<close>

record testimonial =
  id_item :: itemId
  name :: string
  role :: string
  rating :: "nat option"
  text_item :: string

definition defaultTestimonials :: "testimonial list" where
  "defaultTestimonials =
     [\<lparr>id_item = IdNumber 1, name = ''Alex Johnson'', role = ''Product Manager, Bluewave'',
       rating = Some 5,
       text_item = ''The carousel is slick and intuitive. Our customers love browsing reviews!''\<rparr>,
      \<lparr>id_item = IdNumber 2, name = ''Priya Singh'', role = ''Founder, Horizon Labs'',
       rating = Some 5,
       text_item = ''Clean design with accessible controls. Exactly what we needed.''\<rparr>,
      \<lparr>id_item = IdNumber 3, name = ''Marcus Lee'', role = ''CTO, NorthStar'',
       rating = Some 4,
       text_item = ''Solid performance and smooth transitions across devices.''\<rparr>,
      \<lparr>id_item = IdNumber 4, name = ''Emily Chen'', role = ''Design Lead, Aurora'',
       rating = Some 5,
       text_item = ''Ocean Professional theme shines'' @ [CHR 0xE2, CHR 0x80, CHR 0x94]
         @ ''subtle gradients and great legibility.''\<rparr>,
      \<lparr>id_item = IdNumber 5, name = ''Diego Martinez'', role = ''Marketing, WavePoint'',
       rating = Some 4,
       text_item = ''Setup was straightforward and the UI feels premium.''\<rparr>,
      \<lparr>id_item = IdNumber 6, name = ''Sofia Rossi'', role = ''Operations, TerraCore'',
       rating = Some 5,
       text_item = ''Love the keyboard navigation and the swipe gestures on mobile!''\<rparr>,
      \<lparr>id_item = IdNumber 7, name = ''Hannah Kim'', role = ''Engineer, FinEdge'',
       rating = Some 5,
       text_item = ''Great balance of aesthetics and accessibility.''\<rparr>,
      \<lparr>id_item = IdNumber 8, name = ''Liam O'Connor'', role = ''CEO, BrightPath'',
       rating = Some 5,
       text_item = ''The best testimonial section we'' @ [CHR 0xE2, CHR 0x80, CHR 0x99]
         @ ''ve tried. Fast, simple, beautiful.''\<rparr>]"

text \<open>
  The props the logic reads; \<open>None\<close> is a prop the caller left out. (\<^verbatim>\<open>heading\<close>,
  \<^verbatim>\<open>subheading\<close> and \<^verbatim>\<open>className\<close> only reach the markup.)
\<close>

record props =
  items :: "testimonial list option"
  showStars :: "bool option"
  announceChanges :: "bool option"

text \<open>A destructuring default: \<^verbatim>\<open>showStars = true\<close>, \<^verbatim>\<open>announceChanges = true\<close>.\<close>

definition withDefault :: "'a \<Rightarrow> 'a option \<Rightarrow> 'a" where
  "withDefault d v = (case v of None \<Rightarrow> d | Some x \<Rightarrow> x)"

text \<open>\<^verbatim>\<open>items && items.length ? items : [ ...defaults ]\<close>\<close>

definition testimonials :: "testimonial list option \<Rightarrow> testimonial list" where
  "testimonials its =
     (case its of
        None \<Rightarrow> defaultTestimonials
      | Some xs \<Rightarrow> if length xs \<noteq> 0 then xs else defaultTestimonials)"

definition totalSlides :: "testimonial list option \<Rightarrow> nat" where
  "totalSlides its = length (testimonials its)"

subsection \<open>Rendering the cards\<close>

text \<open>
  What \<^verbatim>\<open>testimonials.map((t, idx) => <article ...>)\<close> puts on each card: the React key,
  the \<^verbatim>\<open>aria-label\<close>, name, role, the five star flags when stars are shown, and the quote.
\<close>

record card =
  cardKey :: itemId
  ariaLabel :: string
  cardName :: string
  cardRole :: string
  stars :: "bool list option"
  quote :: string

text \<open>A non-negative integer in a template literal: its decimal digits.\<close>

definition digitChar :: "nat \<Rightarrow> char" where
  "digitChar d = ''0123456789'' ! d"

function numberToString :: "nat \<Rightarrow> string" where
  "numberToString n =
     (if n < 10 then [digitChar n] else numberToString (n div 10) @ [digitChar (n mod 10)])"
  by pat_completeness auto
termination
  by (relation "measure (\<lambda>n. n)") auto

declare numberToString.simps [simp del]

definition renderCard :: "bool \<Rightarrow> nat \<Rightarrow> nat \<times> testimonial \<Rightarrow> card" where
  "renderCard withStars slides it =
     (case it of (idx, t) \<Rightarrow>
        \<lparr>cardKey = id_item t,
         ariaLabel = ''Slide '' @ numberToString (idx + 1) @ '' of '' @ numberToString slides,
         cardName = name t,
         cardRole = role t,
         stars = (if withStars
                  then Some (map (\<lambda>i. i < withDefault 0 (rating t)) [0..<5])
                  else None),
         quote = text_item t\<rparr>)"

definition renderCards :: "props \<Rightarrow> card list" where
  "renderCards p =
     (let ts = testimonials (items p)
      in map (renderCard (withDefault True (showStars p)) (length ts)) (enumerate 0 ts))"

subsection \<open>The live-region effect\<close>

text \<open>\<^verbatim>\<open>testimonials[activeIndex]\<close>: \<^verbatim>\<open>undefined\<close> past the end of the array.\<close>

definition arrayGet :: "'a list \<Rightarrow> nat \<Rightarrow> 'a option" where
  "arrayGet xs i = (if i < length xs then Some (xs ! i) else None)"

text \<open>
  The template literal
  \<^verbatim>\<open>`Showing testimonial ${activeIndex + 1} of ${totalSlides}: ${current.name}, ${current.role}`\<close>
  as the list of its pieces, joined.
\<close>

definition announcement :: "nat \<Rightarrow> nat \<Rightarrow> testimonial \<Rightarrow> string" where
  "announcement idx slides current =
     concat [''Showing testimonial '', numberToString (idx + 1), '' of '', numberToString slides,
             '': '', name current, '', '', role current]"

text \<open>
  The body of the second \<^verbatim>\<open>useEffect\<close>: three early returns (announcements off, no live
  element, no item at the active index), then the assignment to \<^verbatim>\<open>live.textContent\<close>.
\<close>

definition announceEffect :: "props \<Rightarrow> carousel \<Rightarrow> carousel" where
  "announceEffect p st =
     (if \<not> withDefault True (announceChanges p) then st
      else case liveText st of
        None \<Rightarrow> st
      | Some _ \<Rightarrow>
          (case arrayGet (testimonials (items p)) (activeIndex st) of
             None \<Rightarrow> st
           | Some current \<Rightarrow>
               st\<lparr>liveText := Some (announcement (activeIndex st) (totalSlides (items p)) current)\<rparr>))"

subsection \<open>When the effects run\<close>

text \<open>
  The props stay fixed while a carousel is on the page, so of the dependencies
  \<^verbatim>\<open>[activeIndex, testimonials, totalSlides, announceChanges]\<close> only \<^verbatim>\<open>activeIndex\<close> varies:
  the announcing effect runs after the first render and after every render in which
  \<^verbatim>\<open>activeIndex\<close> differs from the previous one.

  A scroll or resize notification calls \<^verbatim>\<open>updateScrollState\<close>; the render that follows
  runs the announcing effect when the active index has changed.
\<close>

definition scrollOrResize :: "props \<Rightarrow> container option \<Rightarrow> carousel \<Rightarrow> carousel" where
  "scrollOrResize p ref st =
     (let st' = updateScrollState ref st
      in if activeIndex st' \<noteq> activeIndex st then announceEffect p st' else st')"

text \<open>
  Mounting: the first render has the initial state; its effects call \<^verbatim>\<open>updateScrollState\<close>
  (whose setters take effect in the next render) and announce the initial active index;
  the next render announces again when the active index has moved.
\<close>

definition mount :: "props \<Rightarrow> container option \<Rightarrow> string option \<Rightarrow> carousel" where
  "mount p ref live = scrollOrResize p ref (announceEffect p (initialState live))"

text \<open>A run of notifications, each with the container reference of its moment.\<close>

fun updateScrollStates :: "container option list \<Rightarrow> carousel \<Rightarrow> carousel" where
  "updateScrollStates [] st = st"
| "updateScrollStates (ref # refs) st = updateScrollStates refs (updateScrollState ref st)"

subsection \<open>Notions used in the statements\<close>

text \<open>
  \<^verbatim>\<open>Math.abs(child.offsetLeft - scrollLeft)\<close> for the child at index \<open>idx\<close>, as the loop
  computes it, and the exact distance \<open>\<bar>offsetLeft - scrollLeft\<bar>\<close> it approximates.
\<close>

definition delta :: "container \<Rightarrow> nat \<Rightarrow> number" where
  "delta el idx = fabs (fsub (childList el ! idx) (scrollLeft el))"

definition distance :: "container \<Rightarrow> nat \<Rightarrow> real" where
  "distance el idx = \<bar>valueOf (childList el ! idx) - valueOf (scrollLeft el)\<bar>"

text \<open>
  The loop invariant of \<^const>\<open>forEachChild\<close> after the children \<open>pre\<close>: before the first
  child the loop variables have their initial values; afterwards \<^verbatim>\<open>closestIdx\<close> is the
  first index of least computed distance among \<open>pre\<close> and \<^verbatim>\<open>closestDelta\<close> is that
  distance.
\<close>

definition closestInv :: "double \<Rightarrow> double list \<Rightarrow> nat \<times> number \<Rightarrow> bool" where
  "closestInv sl pre acc =
     (case acc of (ci, cd) \<Rightarrow>
        if pre = [] then ci = 0 \<and> cd = PosInfinity
        else cd = fabs (fsub (pre ! ci) sl) \<and> ci < length pre
           \<and> (\<forall>j < length pre. \<not> lessNumber (fabs (fsub (pre ! j) sl)) cd)
           \<and> (\<forall>j < ci. lessNumber cd (fabs (fsub (pre ! j) sl))))"

text \<open>Reading a decimal numeral back, to check \<^const>\<open>numberToString\<close> against.\<close>

definition digitValue :: "char \<Rightarrow> nat" where
  "digitValue c = of_char c - 48"

definition decimalValue :: "string \<Rightarrow> nat" where
  "decimalValue s = foldl (\<lambda>a c. 10 * a + digitValue c) 0 s"

subsection \<open>Example inputs\<close>

text \<open>A freshly mounted carousel with an empty live region.\<close>

definition idleState :: carousel where
  "idleState = initialState (Some [])"

text \<open>Three cards of width 100; the scroll offset is halfway between the first two.\<close>

definition tieContainer :: container where
  "tieContainer = \<lparr>scrollLeft = dbl 50 0, scrollWidth = dbl 300 0, clientWidth = dbl 100 0,
     children = Some [dbl 0 0, dbl 100 0, dbl 200 0]\<rparr>"

text \<open>
  The same strip in a right-to-left layout, where browsers report scroll offsets from
  0 downwards: here \<open>-5\<close>.
\<close>

definition rtlContainer :: container where
  "rtlContainer = \<lparr>scrollLeft = dbl (- 5) 0, scrollWidth = dbl 300 0, clientWidth = dbl 100 0,
     children = Some [dbl 0 0, dbl 100 0, dbl 200 0]\<rparr>"

text \<open>The strip scrolled to \<open>199.5\<close>, half a pixel before its end.\<close>

definition scrolledContainer :: container where
  "scrolledContainer = \<lparr>scrollLeft = dbl 399 (- 1), scrollWidth = dbl 300 0,
     clientWidth = dbl 100 0, children = Some [dbl 0 0, dbl 100 0, dbl 200 0]\<rparr>"

text \<open>A container without children.\<close>

definition bareContainer :: container where
  "bareContainer = \<lparr>scrollLeft = dbl 40 0, scrollWidth = dbl 100 0, clientWidth = dbl 100 0,
     children = Some []\<rparr>"

text \<open>Three cards of width 100 after a padding of 8, scrolled to the third card.\<close>

definition stripContainer :: container where
  "stripContainer = \<lparr>scrollLeft = dbl 208 0, scrollWidth = dbl 308 0, clientWidth = dbl 100 0,
     children = Some [dbl 8 0, dbl 108 0, dbl 208 0]\<rparr>"

text \<open>
  Two cards at \<open>-100\<close> and \<open>101\<close>, and the scroll offset \<open>0.5 + 2 ^ -52\<close>, the double next
  above one half: the second card is nearer by \<open>2 ^ -51\<close>.
\<close>

definition straddleContainer :: container where
  "straddleContainer = \<lparr>scrollLeft = dbl 2251799813685249 (- 52), scrollWidth = dbl 300 0,
     clientWidth = dbl 100 0, children = Some [dbl (- 100) 0, dbl 101 0]\<rparr>"

text \<open>
  A strip of width 200 in a viewport of 100, scrolled to \<open>99 - 2 ^ -46\<close>, the double next
  below 99: a little more than 1 before the maximum offset of 100.
\<close>

definition nearEndContainer :: container where
  "nearEndContainer = \<lparr>scrollLeft = dbl 6966505673588735 (- 46), scrollWidth = dbl 200 0,
     clientWidth = dbl 100 0, children = Some [dbl 0 0, dbl 100 0]\<rparr>"

definition notifications :: "container option list" where
  "notifications = [None, Some tieContainer, Some stripContainer, None, Some rtlContainer]"

definition defaultProps :: props where
  "defaultProps = \<lparr>items = None, showStars = None, announceChanges = None\<rparr>"

definition emptyItemsProps :: props where
  "emptyItemsProps = \<lparr>items = Some [], showStars = None, announceChanges = None\<rparr>"

section \<open>Properties\<close>

subsection \<open>Doubles and rounding\<close>

lemma Rep_dbl: "isDouble (m, e) \<Longrightarrow> Rep_double (dbl m e) = (m, e)"
  by (simp add: dbl_def Abs_double_inverse)

lemma isDouble_Rep: "isDouble (Rep_double d)"
  using Rep_double [of d] by simp

lemma Rep_bounds:
  assumes "Rep_double a = (m, e)"
  shows "\<bar>m\<bar> < 2 ^ 53" and "- 1074 \<le> e" and "e \<le> 971"
  using isDouble_Rep [of a] assms by (simp_all add: isDouble_def)

lemma valueOf_dbl: "isDouble (m, e) \<Longrightarrow> valueOf (dbl m e) = dyadicValue m e"
  by (simp add: valueOf_def Rep_dbl)

lemma lessNumber_irrefl: "\<not> lessNumber a a"
  by (cases a) simp_all

lemma lessNumber_trans: "lessNumber a b \<Longrightarrow> lessNumber b c \<Longrightarrow> lessNumber a c"
  by (cases a; cases b; cases c) simp_all

lemma lessNumber_cotrans: "lessNumber a c \<Longrightarrow> lessNumber a b \<or> lessNumber b c"
  by (cases a; cases b; cases c) auto

lemma not_less_PosInfinity: "\<not> lessNumber a PosInfinity \<Longrightarrow> a = PosInfinity"
  by (cases a) simp_all

lemma bits_unique:
  assumes "2 ^ n \<le> x" and "x < 2 ^ Suc n"
  shows "bits x = Suc n"
  using assms
proof (induction n arbitrary: x)
  case 0
  then have "x = Suc 0" by simp
  then show ?case by (simp add: bits.simps [of "Suc 0"] bits.simps [of 0])
next
  case (Suc n)
  have "2 ^ n \<le> x div 2" using Suc.prems by simp
  moreover have "x div 2 < 2 ^ Suc n" using Suc.prems by simp
  ultimately have "bits (x div 2) = Suc n" by (rule Suc.IH)
  moreover have "x \<noteq> 0" using Suc.prems by auto
  ultimately show ?case by (simp add: bits.simps [of x])
qed

lemma bits_le: "n < 2 ^ k \<Longrightarrow> bits n \<le> k"
proof (induction k arbitrary: n)
  case 0
  then show ?case by (simp add: bits.simps [of 0])
next
  case (Suc k)
  then have "n div 2 < 2 ^ k" by simp
  then have "bits (n div 2) \<le> k" by (rule Suc.IH)
  then show ?case by (simp add: bits.simps [of n])
qed

lemma bits_lower: "n \<noteq> 0 \<Longrightarrow> 2 ^ (bits n - 1) \<le> n"
proof (rule ccontr)
  assume n: "n \<noteq> 0" and "\<not> 2 ^ (bits n - 1) \<le> n"
  then have "n < 2 ^ (bits n - 1)" by simp
  then have "bits n \<le> bits n - 1" by (rule bits_le)
  moreover have "0 < bits n" using n by (simp add: bits.simps [of n])
  ultimately show False by simp
qed

lemma bits_int_le: "\<bar>m\<bar> < 2 ^ k \<Longrightarrow> bits (nat \<bar>m\<bar>) \<le> k"
proof -
  assume "\<bar>m\<bar> < 2 ^ k"
  then have "nat \<bar>m\<bar> < 2 ^ k" by (simp add: nat_less_iff)
  then show ?thesis by (rule bits_le)
qed

lemma dyadic_align:
  assumes "e \<le> ea"
  shows "dyadicValue (m * 2 ^ nat (ea - e)) e = dyadicValue m ea"
proof -
  have "(2::real) ^ nat (ea - e) = 2 powi (ea - e)"
    using assms by (simp add: power_int_def)
  moreover have "(2::real) powi (ea - e) * 2 powi e = 2 powi ea"
    using power_int_add [of "2::real" "ea - e" e] by simp
  ultimately show ?thesis
    by (simp add: dyadicValue_def mult.assoc)
qed

lemma dyadic_sum:
  "dyadicValue (ma * 2 ^ nat (ea - min ea eb) + mb * 2 ^ nat (eb - min ea eb)) (min ea eb)
     = dyadicValue ma ea + dyadicValue mb eb"
proof -
  have "dyadicValue (ma * 2 ^ nat (ea - min ea eb) + mb * 2 ^ nat (eb - min ea eb)) (min ea eb)
      = dyadicValue (ma * 2 ^ nat (ea - min ea eb)) (min ea eb)
        + dyadicValue (mb * 2 ^ nat (eb - min ea eb)) (min ea eb)"
    by (simp add: dyadicValue_def algebra_simps)
  then show ?thesis by (simp add: dyadic_align)
qed

lemma dyadic_diff:
  "dyadicValue (ma * 2 ^ nat (ea - min ea eb) - mb * 2 ^ nat (eb - min ea eb)) (min ea eb)
     = dyadicValue ma ea - dyadicValue mb eb"
proof -
  have "dyadicValue (ma * 2 ^ nat (ea - min ea eb) - mb * 2 ^ nat (eb - min ea eb)) (min ea eb)
      = dyadicValue (ma * 2 ^ nat (ea - min ea eb)) (min ea eb)
        - dyadicValue (mb * 2 ^ nat (eb - min ea eb)) (min ea eb)"
    by (simp add: dyadicValue_def algebra_simps)
  then show ?thesis by (simp add: dyadic_align)
qed

lemma dyadicValue_eq_0: "dyadicValue m e = 0 \<longleftrightarrow> m = 0"
  by (simp add: dyadicValue_def)

text \<open>
  \<open>roundEven\<close> rounds to a nearest multiple of \<open>2 ^ k\<close>: the error is at most half of
  it, and on a tie the even neighbour is taken.
\<close>

lemma roundEven_error:
  assumes "0 < k"
  shows "\<bar>roundEven m k * 2 ^ k - m\<bar> \<le> 2 ^ (k - 1)"
proof -
  let ?q = "m div 2 ^ k" and ?r = "m mod 2 ^ k"
  have m: "m = ?q * 2 ^ k + ?r" by (simp only: div_mult_mod_eq)
  have r: "0 \<le> ?r" "?r < 2 ^ k" by simp_all
  have p: "(2::int) ^ k = 2 * 2 ^ (k - 1)"
    using assms by (cases k) simp_all
  consider "?r < 2 ^ (k - 1)" | "2 ^ (k - 1) < ?r" | "?r = 2 ^ (k - 1)" by linarith
  then show ?thesis
  proof cases
    case 1
    then have "roundEven m k = ?q" by (simp add: roundEven_def Let_def)
    then have "roundEven m k * 2 ^ k - m = - ?r" using m by (simp add: algebra_simps)
    with 1 r show ?thesis by linarith
  next
    case 2
    then have "roundEven m k = ?q + 1" by (simp add: roundEven_def Let_def)
    then have "roundEven m k * 2 ^ k - m = 2 ^ k - ?r" using m by (simp add: algebra_simps)
    with 2 r p show ?thesis by linarith
  next
    case 3
    then have "roundEven m k = ?q \<or> roundEven m k = ?q + 1" by (simp add: roundEven_def Let_def)
    then have "roundEven m k * 2 ^ k - m = - ?r \<or> roundEven m k * 2 ^ k - m = 2 ^ k - ?r"
      using m by (auto simp: algebra_simps)
    with 3 p r show ?thesis by linarith
  qed
qed

lemma roundEven_tie:
  "m mod 2 ^ k = 2 ^ (k - 1) \<Longrightarrow> even (roundEven m k)"
  by (simp add: roundEven_def Let_def)

text \<open>A result that fits is not rounded.\<close>

lemma roundDouble_exact:
  assumes "bits (nat \<bar>m\<bar>) \<le> 53" and "- 1074 \<le> e" and "int (bits (nat \<bar>m\<bar>)) + e \<le> 1024"
  shows "roundDouble m e = Finite (dyadicValue m e)"
proof -
  have "shiftOf m e \<le> 0" using assms(1,2) by (simp add: shiftOf_def)
  then have "roundDouble m e = overflowCheck m e"
    by (simp add: roundDouble_def Let_def)
  also have "\<dots> = Finite (dyadicValue m e)"
    using assms(3) by (simp add: overflowCheck_def)
  finally show ?thesis .
qed

lemma roundDouble_small:
  assumes "\<bar>m\<bar> < 2 ^ 53" and "- 1074 \<le> e" and "e \<le> 971"
  shows "roundDouble m e = Finite (dyadicValue m e)"
proof -
  have b: "bits (nat \<bar>m\<bar>) \<le> 53" using assms(1) by (rule bits_int_le)
  then have "int (bits (nat \<bar>m\<bar>)) + e \<le> 1024" using assms(3) by simp
  with b assms(2) show ?thesis by (rule roundDouble_exact)
qed

text \<open>A result with \<open>k\<close> bits too many loses them.\<close>

lemma roundDouble_round:
  assumes "int (bits (nat \<bar>m\<bar>)) - 53 = int k" and "0 < k" and "- 1074 - e \<le> int k"
    and "int (bits (nat \<bar>roundEven m k\<bar>)) + (e + int k) \<le> 1024"
  shows "roundDouble m e = Finite (dyadicValue (roundEven m k) (e + int k))"
proof -
  have "shiftOf m e = int k" using assms(1,3) by (simp add: shiftOf_def)
  then have "roundDouble m e = overflowCheck (roundEven m k) (e + int k)"
    using assms(2) by (simp add: roundDouble_def Let_def)
  also have "\<dots> = Finite (dyadicValue (roundEven m k) (e + int k))"
    using assms(4) by (simp add: overflowCheck_def)
  finally show ?thesis .
qed

lemma roundEven_nonzero:
  assumes "2 ^ Suc k \<le> \<bar>m\<bar>"
  shows "roundEven m k \<noteq> 0"
proof -
  have cand: "roundEven m k = m div 2 ^ k \<or> roundEven m k = m div 2 ^ k + 1"
    by (simp add: roundEven_def Let_def)
  show ?thesis
  proof (cases "0 \<le> m")
    case True
    with assms have "2 * 2 ^ k \<le> m" by simp
    from zdiv_mono1 [OF this, of "2 ^ k"] have "2 \<le> m div 2 ^ k" by simp
    with cand show ?thesis by auto
  next
    case False
    with assms have "m \<le> (- 2) * 2 ^ k" by simp
    moreover have "((- 2) * 2 ^ k) div 2 ^ k = (- 2 :: int)"
      by (rule nonzero_mult_div_cancel_right) simp
    ultimately have "m div 2 ^ k \<le> - 2"
      using zdiv_mono1 [of m "(- 2) * 2 ^ k" "2 ^ k"] by (simp del: mult_minus_left)
    with cand show ?thesis by auto
  qed
qed

lemma overflowCheck_pos:
  "m \<noteq> 0 \<Longrightarrow> lessNumber (Finite 0) (fabs (overflowCheck m e))"
  by (simp add: overflowCheck_def dyadicValue_eq_0)

text \<open>No non-zero sum or difference of doubles rounds to zero.\<close>

lemma roundDouble_nonzero:
  assumes "m \<noteq> 0" and "- 1074 \<le> e"
  shows "lessNumber (Finite 0) (fabs (roundDouble m e))"
proof (cases "0 < shiftOf m e")
  case False
  then show ?thesis
    using assms(1) by (simp add: roundDouble_def Let_def overflowCheck_pos)
next
  case True
  define k where "k = nat (shiftOf m e)"
  have k: "shiftOf m e = int k" "0 < k" using True by (simp_all add: k_def)
  have "int k = int (bits (nat \<bar>m\<bar>)) - 53"
    using k assms(2) by (simp add: shiftOf_def max_def split: if_splits)
  then have b: "bits (nat \<bar>m\<bar>) = k + 53" by simp
  have "nat \<bar>m\<bar> \<noteq> 0" using assms(1) by simp
  then have "2 ^ (bits (nat \<bar>m\<bar>) - 1) \<le> nat \<bar>m\<bar>" by (rule bits_lower)
  then have "(2::nat) ^ (k + 52) \<le> nat \<bar>m\<bar>" by (simp add: b add.commute)
  moreover have "(2::nat) ^ Suc k \<le> 2 ^ (k + 52)"
    by (rule power_increasing) simp_all
  ultimately have "(2::nat) ^ Suc k \<le> nat \<bar>m\<bar>" by (rule order_trans [rotated])
  then have "int (2 ^ Suc k) \<le> \<bar>m\<bar>" by (simp add: le_nat_iff)
  then have "2 ^ Suc k \<le> \<bar>m\<bar>" by simp
  then have "roundEven m k \<noteq> 0" by (rule roundEven_nonzero)
  then have "lessNumber (Finite 0) (fabs (overflowCheck (roundEven m k) (e + int k)))"
    by (rule overflowCheck_pos)
  then show ?thesis
    using k by (simp add: roundDouble_def Let_def)
qed

lemma fsub_Rep:
  assumes "Rep_double a = (ma, ea)" and "Rep_double b = (mb, eb)"
  shows "fsub a b
    = roundDouble (ma * 2 ^ nat (ea - min ea eb) - mb * 2 ^ nat (eb - min ea eb)) (min ea eb)"
  using assms by (simp add: fsub_def Let_def)

lemma fadd_Rep:
  assumes "Rep_double a = (ma, ea)" and "Rep_double b = (mb, eb)"
  shows "fadd a b
    = roundDouble (ma * 2 ^ nat (ea - min ea eb) + mb * 2 ^ nat (eb - min ea eb)) (min ea eb)"
  using assms by (simp add: fadd_def Let_def)

text \<open>On concrete doubles, the sum or difference is the rounded exact result.\<close>

lemma fadd_dbl:
  "isDouble (ma, ea) \<Longrightarrow> isDouble (mb, eb) \<Longrightarrow>
   fadd (dbl ma ea) (dbl mb eb)
     = roundDouble (ma * 2 ^ nat (ea - min ea eb) + mb * 2 ^ nat (eb - min ea eb)) (min ea eb)"
  by (simp add: fadd_Rep Rep_dbl)

lemma fsub_dbl:
  "isDouble (ma, ea) \<Longrightarrow> isDouble (mb, eb) \<Longrightarrow>
   fsub (dbl ma ea) (dbl mb eb)
     = roundDouble (ma * 2 ^ nat (ea - min ea eb) - mb * 2 ^ nat (eb - min ea eb)) (min ea eb)"
  by (simp add: fsub_Rep Rep_dbl)

text \<open>Where the exact result has at most 53 bits, the operation is exact.\<close>

lemma fadd_dbl_exact:
  assumes "isDouble (ma, ea)" and "isDouble (mb, eb)"
    and "\<bar>ma * 2 ^ nat (ea - min ea eb) + mb * 2 ^ nat (eb - min ea eb)\<bar> < 2 ^ 53"
  shows "fadd (dbl ma ea) (dbl mb eb) = Finite (dyadicValue ma ea + dyadicValue mb eb)"
proof -
  have "- 1074 \<le> min ea eb" "min ea eb \<le> 971"
    using assms(1,2) by (auto simp: isDouble_def)
  from roundDouble_small [OF assms(3) this] show ?thesis
    by (simp add: fadd_dbl [OF assms(1,2)] dyadic_sum)
qed

lemma fsub_dbl_exact:
  assumes "isDouble (ma, ea)" and "isDouble (mb, eb)"
    and "\<bar>ma * 2 ^ nat (ea - min ea eb) - mb * 2 ^ nat (eb - min ea eb)\<bar> < 2 ^ 53"
  shows "fsub (dbl ma ea) (dbl mb eb) = Finite (dyadicValue ma ea - dyadicValue mb eb)"
proof -
  have "- 1074 \<le> min ea eb" "min ea eb \<le> 971"
    using assms(1,2) by (auto simp: isDouble_def)
  from roundDouble_small [OF assms(3) this] show ?thesis
    by (simp add: fsub_dbl [OF assms(1,2)] dyadic_diff)
qed

text \<open>The computed distance is zero for equal values and positive otherwise.\<close>

lemma fabs_fsub_same:
  assumes "valueOf a = valueOf b"
  shows "fabs (fsub a b) = Finite 0"
proof -
  obtain ma ea where a: "Rep_double a = (ma, ea)" by (cases "Rep_double a")
  obtain mb eb where b: "Rep_double b = (mb, eb)" by (cases "Rep_double b")
  let ?M = "ma * 2 ^ nat (ea - min ea eb) - mb * 2 ^ nat (eb - min ea eb)"
  have "dyadicValue ?M (min ea eb) = valueOf a - valueOf b"
    by (simp add: dyadic_diff valueOf_def a b)
  with assms have M: "?M = 0" by (simp add: dyadicValue_eq_0)
  have e: "- 1074 \<le> min ea eb" "min ea eb \<le> 971"
    using Rep_bounds [OF a] Rep_bounds [OF b] by simp_all
  have "roundDouble 0 (min ea eb) = Finite (dyadicValue 0 (min ea eb))"
    using e by (intro roundDouble_small) simp_all
  then show ?thesis
    by (simp add: fsub_Rep [OF a b] M dyadicValue_def)
qed

lemma fabs_fsub_differ:
  assumes "valueOf a \<noteq> valueOf b"
  shows "lessNumber (Finite 0) (fabs (fsub a b))"
proof -
  obtain ma ea where a: "Rep_double a = (ma, ea)" by (cases "Rep_double a")
  obtain mb eb where b: "Rep_double b = (mb, eb)" by (cases "Rep_double b")
  let ?M = "ma * 2 ^ nat (ea - min ea eb) - mb * 2 ^ nat (eb - min ea eb)"
  have "dyadicValue ?M (min ea eb) = valueOf a - valueOf b"
    by (simp add: dyadic_diff valueOf_def a b)
  with assms have "dyadicValue ?M (min ea eb) \<noteq> 0" by simp
  then have M: "?M \<noteq> 0" by (simp only: dyadicValue_eq_0 not_False_eq_True)
  have e: "- 1074 \<le> min ea eb"
    using Rep_bounds [OF a] Rep_bounds [OF b] by simp
  from roundDouble_nonzero [OF M e] show ?thesis
    by (simp add: fsub_Rep [OF a b])
qed

text \<open>Multiplying by 1 or by -1 is exact.\<close>

lemma fmul_one: "fmul (dbl 1 0) d = Finite (valueOf d)"
proof -
  obtain m e where d: "Rep_double d = (m, e)" by (cases "Rep_double d")
  have one: "Rep_double (dbl 1 0) = (1, 0)" by (simp add: Rep_dbl isDouble_def)
  have "roundDouble m e = Finite (dyadicValue m e)"
    using Rep_bounds [OF d] by (intro roundDouble_small)
  then show ?thesis
    by (simp add: fmul_def one d valueOf_def)
qed

lemma fmul_minus_one: "fmul (dbl (- 1) 0) d = Finite (- valueOf d)"
proof -
  obtain m e where d: "Rep_double d = (m, e)" by (cases "Rep_double d")
  have mone: "Rep_double (dbl (- 1) 0) = (- 1, 0)" by (simp add: Rep_dbl isDouble_def)
  have "roundDouble (- m) e = Finite (dyadicValue (- m) e)"
    using Rep_bounds [OF d] by (intro roundDouble_small) simp_all
  then show ?thesis
    by (simp add: fmul_def mone d valueOf_def dyadicValue_def)
qed

subsection \<open>The closest-child loop\<close>

text \<open>
  One more child keeps the invariant: it becomes the closest only when its computed
  distance is strictly less than that of every child before it.
\<close>

lemma closestInv_step:
  assumes "closestInv sl pre (ci, cd)"
  shows "closestInv sl (pre @ [c])
           (if lessNumber (fabs (fsub c sl)) cd then (length pre, fabs (fsub c sl)) else (ci, cd))"
proof (cases "pre = []")
  case True
  with assms have init: "ci = 0" "cd = PosInfinity" by (simp_all add: closestInv_def)
  show ?thesis
  proof (cases "lessNumber (fabs (fsub c sl)) cd")
    case True
    with \<open>pre = []\<close> show ?thesis by (simp add: closestInv_def lessNumber_irrefl)
  next
    case False
    with init have "fabs (fsub c sl) = PosInfinity" by (simp add: not_less_PosInfinity)
    with False init \<open>pre = []\<close> show ?thesis by (simp add: closestInv_def)
  qed
next
  case False
  let ?d = "\<lambda>x. fabs (fsub x sl)"
  from False assms have
    inv: "cd = ?d (pre ! ci) \<and> ci < length pre
      \<and> (\<forall>j < length pre. \<not> lessNumber (?d (pre ! j)) cd)
      \<and> (\<forall>j < ci. lessNumber cd (?d (pre ! j)))"
    by (auto simp: closestInv_def)
  then have cd: "cd = ?d (pre ! ci)" and ci: "ci < length pre"
    and mn: "\<forall>j < length pre. \<not> lessNumber (?d (pre ! j)) cd"
    and st: "\<forall>j < ci. lessNumber cd (?d (pre ! j))"
    by blast+
  show ?thesis
  proof (cases "lessNumber (?d c) cd")
    case True
    have a: "\<forall>j < length pre. \<not> lessNumber (?d (pre ! j)) (?d c)"
      using True mn lessNumber_trans by blast
    have b: "\<forall>j < length pre. lessNumber (?d c) (?d (pre ! j))"
      using True mn lessNumber_cotrans by blast
    show ?thesis
      using True a b
      by (auto simp: closestInv_def nth_append less_Suc_eq lessNumber_irrefl)
  next
    case False
    then show ?thesis
      using cd ci mn st by (auto simp: closestInv_def nth_append less_Suc_eq)
  qed
qed

lemma forEachChild_inv:
  "closestInv sl pre acc \<Longrightarrow> closestInv sl (pre @ cs) (forEachChild sl cs (length pre) acc)"
proof (induction cs arbitrary: pre acc)
  case Nil
  then show ?case by simp
next
  case (Cons c cs)
  obtain ci cd where acc: "acc = (ci, cd)" by (cases acc)
  let ?acc' = "if lessNumber (fabs (fsub c sl)) cd then (length pre, fabs (fsub c sl)) else (ci, cd)"
  have "closestInv sl (pre @ [c]) ?acc'"
    using Cons.prems acc closestInv_step by simp
  from Cons.IH [OF this]
  have "closestInv sl ((pre @ [c]) @ cs) (forEachChild sl cs (Suc (length pre)) ?acc')"
    by simp
  moreover have "forEachChild sl (c # cs) (length pre) acc = forEachChild sl cs (Suc (length pre)) ?acc'"
    by (simp add: acc Let_def)
  ultimately show ?case by simp
qed

lemma closestIdx_spec:
  assumes "cs \<noteq> []"
  shows "closestIdx sl cs < length cs"
    and "\<forall>j < length cs. \<not> lessNumber (fabs (fsub (cs ! j) sl)) (fabs (fsub (cs ! closestIdx sl cs) sl))"
    and "\<forall>j < closestIdx sl cs. lessNumber (fabs (fsub (cs ! closestIdx sl cs) sl)) (fabs (fsub (cs ! j) sl))"
proof -
  have "closestInv sl [] (0, PosInfinity)" by (simp add: closestInv_def)
  from forEachChild_inv [OF this, of cs]
  have "closestInv sl cs (forEachChild sl cs 0 (0, PosInfinity))" by simp
  with assms show "closestIdx sl cs < length cs"
    and "\<forall>j < length cs. \<not> lessNumber (fabs (fsub (cs ! j) sl)) (fabs (fsub (cs ! closestIdx sl cs) sl))"
    and "\<forall>j < closestIdx sl cs. lessNumber (fabs (fsub (cs ! closestIdx sl cs) sl)) (fabs (fsub (cs ! j) sl))"
    by (auto simp: closestInv_def closestIdx_def split: prod.splits)
qed

lemma activeIndex_update:
  "childList el \<noteq> [] \<Longrightarrow>
   activeIndex (updateScrollState (Some el) st) = closestIdx (scrollLeft el) (childList el)"
  by (simp add: updateScrollState_def Let_def)

lemma liveText_update: "liveText (updateScrollState ref st) = liveText st"
  by (cases ref) (simp_all add: updateScrollState_def Let_def)

lemmas evalDouble = fsub_dbl_exact fadd_dbl_exact valueOf_dbl isDouble_def dyadicValue_def

lemma canScrollLeft_update:
  "canScrollLeft (updateScrollState (Some el) st) = (0 < valueOf (scrollLeft el))"
  by (simp add: updateScrollState_def Let_def toNumber_def valueOf_dbl isDouble_def dyadicValue_def)

lemma canScrollRight_update:
  "canScrollRight (updateScrollState (Some el) st)
     = lessNumber (fadd (scrollLeft el) (clientWidth el)) (fsub (scrollWidth el) (dbl 1 0))"
  by (simp add: updateScrollState_def Let_def)

lemma straddle_deltas:
  "delta straddleContainer 0 = Finite (201 / 2)" "delta straddleContainer 1 = Finite (201 / 2)"
proof -
  have s0: "fsub (dbl (- 100) 0) (dbl 2251799813685249 (- 52))
              = roundDouble (- 452611762550734849) (- 52)"
    by (simp add: fsub_dbl isDouble_def)
  have b0: "bits 452611762550734849 = 59"
    by (rule bits_unique [of 58, simplified]) simp_all
  have r0: "roundEven (- 452611762550734849) 6 = - 7072058789855232"
    by (simp add: roundEven_def Let_def)
  have b: "bits 7072058789855232 = 53"
    by (rule bits_unique [of 52, simplified]) simp_all
  have "roundDouble (- 452611762550734849) (- 52)
          = Finite (dyadicValue (roundEven (- 452611762550734849) 6) (- 52 + int 6))"
    by (rule roundDouble_round) (simp_all add: b0 r0 b)
  then have v0: "roundDouble (- 452611762550734849) (- 52) = Finite (- (201 / 2))"
    by (simp add: r0 dyadicValue_def power_int_minus)
  have s1: "fsub (dbl 101 0) (dbl 2251799813685249 (- 52))
              = roundDouble 452611762550734847 (- 52)"
    by (simp add: fsub_dbl isDouble_def)
  have b1: "bits 452611762550734847 = 59"
    by (rule bits_unique [of 58, simplified]) simp_all
  have r1: "roundEven 452611762550734847 6 = 7072058789855232"
    by (simp add: roundEven_def Let_def)
  have "roundDouble 452611762550734847 (- 52)
          = Finite (dyadicValue (roundEven 452611762550734847 6) (- 52 + int 6))"
    by (rule roundDouble_round) (simp_all add: b1 r1 b)
  then have v1: "roundDouble 452611762550734847 (- 52) = Finite (201 / 2)"
    by (simp add: r1 dyadicValue_def power_int_minus)
  show "delta straddleContainer 0 = Finite (201 / 2)"
    by (simp add: delta_def straddleContainer_def childList_def s0 v0)
  show "delta straddleContainer 1 = Finite (201 / 2)"
    by (simp add: delta_def straddleContainer_def childList_def s1 v1)
qed

lemma updateScrollStates_bound:
  assumes "\<forall>el. Some el \<in> set refs \<longrightarrow> length (childList el) = n"
    and "activeIndex st < n"
  shows "activeIndex (updateScrollStates refs st) < n"
  using assms
proof (induction refs arbitrary: st)
  case Nil
  then show ?case by simp
next
  case (Cons ref refs)
  have "activeIndex (updateScrollState ref st) < n"
  proof (cases ref)
    case None
    with Cons.prems show ?thesis by (simp add: updateScrollState_def)
  next
    case (Some el)
    with Cons.prems have len: "length (childList el) = n" by simp
    with Cons.prems have ne: "childList el \<noteq> []" by auto
    from closestIdx_spec(1) [OF ne, of "scrollLeft el"] len Some
    show ?thesis by (simp add: activeIndex_update [OF ne])
  qed
  with Cons show ?case by simp
qed

subsection \<open>Decimal numerals, the item list, the announcing effect\<close>

lemma digitValue_digitChar: "d < 10 \<Longrightarrow> digitValue (digitChar d) = d"
proof -
  assume "d < 10"
  then have "d \<in> {0, 1, 2, 3, 4, 5, 6, 7, 8, 9}" by auto
  then show ?thesis
    by (auto simp: digitValue_def digitChar_def)
qed

lemma decimalValue_numberToString: "decimalValue (numberToString n) = n"
proof (induction n rule: numberToString.induct)
  case (1 n)
  show ?case
  proof (cases "n < 10")
    case True
    then show ?thesis
      by (simp add: numberToString.simps [of n] decimalValue_def digitValue_digitChar)
  next
    case False
    with 1 have "decimalValue (numberToString (n div 10)) = n div 10" by simp
    with False show ?thesis
      by (simp add: numberToString.simps [of n] decimalValue_def digitValue_digitChar)
  qed
qed

lemma testimonials_nonempty: "testimonials its \<noteq> []"
  by (auto simp: testimonials_def defaultTestimonials_def split: option.splits)

lemma length_defaultTestimonials: "length defaultTestimonials = 8"
  by (simp add: defaultTestimonials_def)

lemma length_renderCards: "length (renderCards p) = totalSlides (items p)"
  by (simp add: renderCards_def totalSlides_def Let_def)

lemma announceEffect_text:
  assumes "withDefault True (announceChanges p)" and "liveText st = Some old"
    and "activeIndex st < length (testimonials (items p))"
  shows "liveText (announceEffect p st)
           = Some (announcement (activeIndex st) (totalSlides (items p))
                     (testimonials (items p) ! activeIndex st))"
  using assms by (simp add: announceEffect_def arrayGet_def)

lemma announceEffect_frame:
  "activeIndex (announceEffect p st) = activeIndex st
   \<and> canScrollLeft (announceEffect p st) = canScrollLeft st
   \<and> canScrollRight (announceEffect p st) = canScrollRight st"
  by (simp add: announceEffect_def split: option.splits)

lemma announceEffect_skip:
  "\<not> activeIndex st < length (testimonials (items p)) \<Longrightarrow> announceEffect p st = st"
  by (simp add: announceEffect_def arrayGet_def split: option.splits)

subsection \<open>The active index\<close>

text \<open>
  C1, as the code has it. On an available container with a non-empty child list, the
  active index set by \<^verbatim>\<open>updateScrollState\<close> is an index of the child list; no child has a
  smaller computed distance \<^verbatim>\<open>Math.abs(child.offsetLeft - scrollLeft)\<close>, the subtraction
  rounded to a double, and every child at a lower index has a strictly greater one:
  among children of equal least computed distance the lowest index wins. Where every
  computed distance is the exact one, the active child is the one at the smallest
  absolute distance, the lowest index winning ties.
\<close>

theorem active_index_is_closest_computed:
  assumes "childList el \<noteq> []"
  shows "activeIndex (updateScrollState (Some el) st) < length (childList el)
    \<and> (\<forall>j < length (childList el).
          \<not> lessNumber (delta el j) (delta el (activeIndex (updateScrollState (Some el) st))))
    \<and> (\<forall>j < activeIndex (updateScrollState (Some el) st).
          lessNumber (delta el (activeIndex (updateScrollState (Some el) st))) (delta el j))
    \<and> ((\<forall>j < length (childList el). delta el j = Finite (distance el j)) \<longrightarrow>
         (\<forall>j < length (childList el).
            distance el (activeIndex (updateScrollState (Some el) st)) \<le> distance el j)
         \<and> (\<forall>j < activeIndex (updateScrollState (Some el) st).
            distance el (activeIndex (updateScrollState (Some el) st)) < distance el j))"
proof -
  let ?i = "activeIndex (updateScrollState (Some el) st)"
  have i: "?i = closestIdx (scrollLeft el) (childList el)"
    by (rule activeIndex_update [OF assms])
  note spec = closestIdx_spec [OF assms, of "scrollLeft el", folded i]
  have 1: "?i < length (childList el)" by (rule spec(1))
  have 2: "\<forall>j < length (childList el). \<not> lessNumber (delta el j) (delta el ?i)"
    using spec(2) by (simp add: delta_def)
  have 3: "\<forall>j < ?i. lessNumber (delta el ?i) (delta el j)"
    using spec(3) by (simp add: delta_def)
  have 4: "(\<forall>j < length (childList el). distance el ?i \<le> distance el j)
         \<and> (\<forall>j < ?i. distance el ?i < distance el j)"
    if ex: "\<forall>j < length (childList el). delta el j = Finite (distance el j)"
  proof (intro conjI allI impI)
    fix j assume j: "j < length (childList el)"
    from 2 j have "\<not> lessNumber (delta el j) (delta el ?i)" by simp
    with ex j 1 show "distance el ?i \<le> distance el j" by simp
  next
    fix j assume j: "j < ?i"
    with 1 have jl: "j < length (childList el)" by simp
    from 3 j have "lessNumber (delta el ?i) (delta el j)" by simp
    with ex jl 1 show "distance el ?i < distance el j" by simp
  qed
  from 1 2 3 4 show ?thesis by blast
qed

text \<open>
  In \<^const>\<open>tieContainer\<close> all distances are computed exactly and the first two cards are
  both 50 away from the scroll offset; the first one is active.
\<close>

theorem active_index_is_closest_computed_witness:
  "childList tieContainer \<noteq> []
   \<and> activeIndex (updateScrollState (Some tieContainer) idleState) = 0
   \<and> delta tieContainer 0 = Finite 50 \<and> delta tieContainer 1 = Finite 50
   \<and> delta tieContainer 2 = Finite 150
   \<and> distance tieContainer 0 \<le> distance tieContainer 1
   \<and> \<not> lessNumber (delta tieContainer 1) (delta tieContainer 0)"
proof -
  have h: "childList tieContainer \<noteq> []"
    by (simp add: tieContainer_def childList_def)
  have l: "length (childList tieContainer) = 3"
    by (simp add: tieContainer_def childList_def)
  have d: "delta tieContainer 0 = Finite 50" "delta tieContainer 1 = Finite 50"
    "delta tieContainer 2 = Finite 150"
    by (simp_all add: delta_def tieContainer_def childList_def evalDouble)
  have x: "distance tieContainer 0 = 50" "distance tieContainer 1 = 50"
    "distance tieContainer 2 = 150"
    by (simp_all add: distance_def tieContainer_def childList_def evalDouble)
  have ex: "\<forall>j < length (childList tieContainer). delta tieContainer j = Finite (distance tieContainer j)"
  proof (intro allI impI)
    fix j assume "j < length (childList tieContainer)"
    then have "j = 0 \<or> j = 1 \<or> j = 2" by (simp add: l) arith
    then show "delta tieContainer j = Finite (distance tieContainer j)"
      using d x by auto
  qed
  have e: "activeIndex (updateScrollState (Some tieContainer) idleState) = 0"
    by (simp add: updateScrollState_def tieContainer_def childList_def closestIdx_def Let_def
        evalDouble)
  from active_index_is_closest_computed [OF h, of idleState] ex
  have "distance tieContainer 0 \<le> distance tieContainer 1
    \<and> \<not> lessNumber (delta tieContainer 1) (delta tieContainer 0)"
    by (simp add: e l)
  with h e d show ?thesis by simp
qed

text \<open>
  C1 as written takes the distances exactly. In \<^const>\<open>straddleContainer\<close> the second
  card is strictly nearer, but both subtractions round to 100.5, so the first card
  stays active.
\<close>

theorem closest_child_rounding_counterexample:
  "activeIndex (updateScrollState (Some straddleContainer) idleState) = 0
   \<and> distance straddleContainer 1 < distance straddleContainer 0"
proof -
  have c: "childList straddleContainer = [dbl (- 100) 0, dbl 101 0]"
    "scrollLeft straddleContainer = dbl 2251799813685249 (- 52)"
    by (simp_all add: straddleContainer_def childList_def)
  have d: "fabs (fsub (dbl (- 100) 0) (dbl 2251799813685249 (- 52))) = Finite (201 / 2)"
    "fabs (fsub (dbl 101 0) (dbl 2251799813685249 (- 52))) = Finite (201 / 2)"
    using straddle_deltas by (simp_all add: delta_def c)
  have "closestIdx (dbl 2251799813685249 (- 52)) [dbl (- 100) 0, dbl 101 0] = 0"
    by (simp add: closestIdx_def Let_def d)
  then have a: "activeIndex (updateScrollState (Some straddleContainer) idleState) = 0"
    by (simp add: updateScrollState_def Let_def c)
  have "distance straddleContainer 1 < distance straddleContainer 0"
    by (simp add: distance_def c valueOf_dbl isDouble_def dyadicValue_def power_int_minus)
  with a show ?thesis by simp
qed

text \<open>
  C8. A container with \<open>N\<close> children of equal width laid out without gaps, the child
  \<open>i\<close> at \<open>base + i * width\<close> with \<open>width > 0\<close>, and scrolled exactly to the offset of
  child \<open>k < N\<close>: \<^verbatim>\<open>updateScrollState\<close> sets the active index to \<open>k\<close>.
\<close>

theorem equal_width_strip_active_index:
  assumes k: "k < N" and w: "0 < width"
    and cs: "map valueOf (childList el) = map (\<lambda>i. base + real i * width) [0..<N]"
    and sl: "valueOf (scrollLeft el) = base + real k * width"
  shows "activeIndex (updateScrollState (Some el) st) = k"
proof -
  let ?cs = "childList el"
  let ?i = "closestIdx (scrollLeft el) ?cs"
  have len: "length ?cs = N"
    using arg_cong [OF cs, of length] by simp
  with k have ne: "?cs \<noteq> []" by auto
  have val: "valueOf (?cs ! j) = base + real j * width" if "j < N" for j
  proof -
    have "map valueOf ?cs ! j = map (\<lambda>i. base + real i * width) [0..<N] ! j"
      by (simp only: cs)
    with that len show ?thesis by simp
  qed
  have i: "?i < N" using closestIdx_spec(1) [OF ne, of "scrollLeft el"] len by simp
  have "valueOf (?cs ! k) = valueOf (scrollLeft el)" using val [OF k] sl by simp
  then have zero: "fabs (fsub (?cs ! k) (scrollLeft el)) = Finite 0"
    by (rule fabs_fsub_same)
  have "\<not> lessNumber (fabs (fsub (?cs ! k) (scrollLeft el))) (fabs (fsub (?cs ! ?i) (scrollLeft el)))"
    using closestIdx_spec(2) [OF ne, of "scrollLeft el"] k len by simp
  then have "\<not> lessNumber (Finite 0) (fabs (fsub (?cs ! ?i) (scrollLeft el)))"
    by (simp add: zero)
  then have "valueOf (?cs ! ?i) = valueOf (scrollLeft el)"
    using fabs_fsub_differ by blast
  then have "base + real ?i * width = base + real k * width"
    using val [OF i] sl by simp
  with w have "?i = k" by simp
  then show ?thesis by (simp add: activeIndex_update [OF ne])
qed

theorem equal_width_strip_active_index_witness:
  "(2::nat) < 3 \<and> (0::real) < 100
   \<and> map valueOf (childList stripContainer) = map (\<lambda>i. 8 + real i * 100) [0..<3]
   \<and> valueOf (scrollLeft stripContainer) = 8 + real (2::nat) * 100
   \<and> activeIndex (updateScrollState (Some stripContainer) idleState) = 2"
proof -
  have c: "map valueOf (childList stripContainer) = map (\<lambda>i. 8 + real i * 100) [0..<3]"
    by (simp add: stripContainer_def childList_def evalDouble upt_rec)
  have s: "valueOf (scrollLeft stripContainer) = 8 + real (2::nat) * 100"
    by (simp add: stripContainer_def evalDouble)
  have k: "(2::nat) < 3" and w: "(0::real) < 100" by simp_all
  show ?thesis
    using c s equal_width_strip_active_index [OF k w c s, of idleState] by simp
qed

text \<open>
  C10. Whenever \<^verbatim>\<open>updateScrollState\<close> assigns the active index, the value is below the
  number of children. Starting from the initial state, after any run of calls in which
  every available container has \<open>n > 0\<close> children, the active index is below \<open>n\<close>.
\<close>

theorem active_index_in_range:
  "(childList el \<noteq> [] \<longrightarrow>
      activeIndex (updateScrollState (Some el) st) < length (childList el))
   \<and> (0 < n \<and> (\<forall>c. Some c \<in> set refs \<longrightarrow> length (childList c) = n) \<longrightarrow>
      activeIndex (updateScrollStates refs (initialState live)) < n)"
proof (intro conjI impI)
  assume ne: "childList el \<noteq> []"
  from closestIdx_spec(1) [OF ne, of "scrollLeft el"]
  show "activeIndex (updateScrollState (Some el) st) < length (childList el)"
    by (simp add: activeIndex_update [OF ne])
next
  assume "0 < n \<and> (\<forall>c. Some c \<in> set refs \<longrightarrow> length (childList c) = n)"
  then show "activeIndex (updateScrollStates refs (initialState live)) < n"
    using updateScrollStates_bound [of refs n "initialState live"]
    by (simp add: initialState_def)
qed

theorem active_index_in_range_witness:
  "childList tieContainer \<noteq> []
   \<and> activeIndex (updateScrollState (Some tieContainer) idleState) < length (childList tieContainer)
   \<and> length (childList tieContainer) = 3
   \<and> length (childList stripContainer) = 3
   \<and> length (childList rtlContainer) = 3
   \<and> activeIndex (updateScrollStates notifications (initialState (Some []))) < 3"
proof -
  have h: "childList tieContainer \<noteq> []"
    by (simp add: tieContainer_def childList_def)
  have l: "length (childList tieContainer) = 3" "length (childList stripContainer) = 3"
    "length (childList rtlContainer) = 3"
    by (simp_all add: tieContainer_def stripContainer_def rtlContainer_def childList_def)
  have a: "\<forall>c. Some c \<in> set notifications \<longrightarrow> length (childList c) = 3"
    using l by (auto simp: notifications_def)
  have n: "(0::nat) < 3" by simp
  from active_index_in_range [of tieContainer idleState 3 notifications "Some []"] h a n
  have "activeIndex (updateScrollState (Some tieContainer) idleState) < length (childList tieContainer)
    \<and> activeIndex (updateScrollStates notifications (initialState (Some []))) < 3"
    by blast
  with h l show ?thesis by simp
qed

subsection \<open>The scroll flags\<close>

text \<open>
  C2, as the code has it. On an available container \<^verbatim>\<open>canScrollLeft\<close> becomes
  \<open>scrollLeft > 0\<close>: it is false exactly when \<open>scrollLeft \<le> 0\<close>, which is \<open>scrollLeft = 0\<close>
  for a non-negative offset. \<^verbatim>\<open>canScrollRight\<close> becomes the comparison
  \<^verbatim>\<open>scrollLeft + clientWidth < scrollWidth - 1\<close> of the rounded sum with the rounded
  difference. Where the sum and the difference are exact and the offset does not
  exceed the maximum offset \<open>scrollWidth - clientWidth\<close>, the flag is false exactly when
  the offset is within 1 of that maximum.
\<close>

theorem scroll_flags:
  "canScrollLeft (updateScrollState (Some el) st) = (valueOf (scrollLeft el) > 0)
   \<and> (\<not> canScrollLeft (updateScrollState (Some el) st) \<longleftrightarrow> valueOf (scrollLeft el) \<le> 0)
   \<and> (0 \<le> valueOf (scrollLeft el) \<longrightarrow>
        (\<not> canScrollLeft (updateScrollState (Some el) st) \<longleftrightarrow> valueOf (scrollLeft el) = 0))
   \<and> canScrollRight (updateScrollState (Some el) st)
       = lessNumber (fadd (scrollLeft el) (clientWidth el)) (fsub (scrollWidth el) (dbl 1 0))
   \<and> (fadd (scrollLeft el) (clientWidth el)
          = Finite (valueOf (scrollLeft el) + valueOf (clientWidth el))
        \<and> fsub (scrollWidth el) (dbl 1 0) = Finite (valueOf (scrollWidth el) - 1)
        \<and> valueOf (scrollLeft el) \<le> valueOf (scrollWidth el) - valueOf (clientWidth el) \<longrightarrow>
        (\<not> canScrollRight (updateScrollState (Some el) st)
         \<longleftrightarrow> \<bar>(valueOf (scrollWidth el) - valueOf (clientWidth el)) - valueOf (scrollLeft el)\<bar> \<le> 1))"
  by (auto simp: canScrollLeft_update canScrollRight_update)

theorem scroll_flags_witness:
  "0 \<le> valueOf (scrollLeft scrolledContainer)
   \<and> fadd (scrollLeft scrolledContainer) (clientWidth scrolledContainer)
       = Finite (valueOf (scrollLeft scrolledContainer) + valueOf (clientWidth scrolledContainer))
   \<and> fsub (scrollWidth scrolledContainer) (dbl 1 0)
       = Finite (valueOf (scrollWidth scrolledContainer) - 1)
   \<and> valueOf (scrollLeft scrolledContainer)
       \<le> valueOf (scrollWidth scrolledContainer) - valueOf (clientWidth scrolledContainer)
   \<and> canScrollLeft (updateScrollState (Some scrolledContainer) idleState)
   \<and> \<not> canScrollRight (updateScrollState (Some scrolledContainer) idleState)
   \<and> \<bar>(valueOf (scrollWidth scrolledContainer) - valueOf (clientWidth scrolledContainer))
        - valueOf (scrollLeft scrolledContainer)\<bar> \<le> 1"
proof -
  have v: "valueOf (scrollLeft scrolledContainer) = 399 / 2"
    "valueOf (scrollWidth scrolledContainer) = 300"
    "valueOf (clientWidth scrolledContainer) = 100"
    by (simp_all add: scrolledContainer_def evalDouble)
  have a: "fadd (scrollLeft scrolledContainer) (clientWidth scrolledContainer) = Finite (599 / 2)"
    by (simp add: scrolledContainer_def evalDouble)
  have s: "fsub (scrollWidth scrolledContainer) (dbl 1 0) = Finite 299"
    by (simp add: scrolledContainer_def evalDouble)
  show ?thesis
    using scroll_flags [of scrolledContainer idleState]
    by (simp add: v a s)
qed

text \<open>
  C2 as written says that \<^verbatim>\<open>canScrollLeft\<close> is false only at \<open>scrollLeft = 0\<close>, and
  \<^verbatim>\<open>canScrollRight\<close> only within 1 of the maximum offset. At the negative offset of
  \<^const>\<open>rtlContainer\<close> the first flag is false. In \<^const>\<open>nearEndContainer\<close> the offset is
  more than 1 before the maximum, but the sum rounds up to 199 and the second flag is
  false.
\<close>

theorem scroll_flags_counterexample:
  "\<not> canScrollLeft (updateScrollState (Some rtlContainer) idleState)
   \<and> valueOf (scrollLeft rtlContainer) \<noteq> 0
   \<and> \<not> canScrollRight (updateScrollState (Some nearEndContainer) idleState)
   \<and> valueOf (scrollLeft nearEndContainer)
       \<le> valueOf (scrollWidth nearEndContainer) - valueOf (clientWidth nearEndContainer)
   \<and> 1 < (valueOf (scrollWidth nearEndContainer) - valueOf (clientWidth nearEndContainer))
         - valueOf (scrollLeft nearEndContainer)"
proof -
  have r: "valueOf (scrollLeft rtlContainer) = - 5"
    by (simp add: rtlContainer_def evalDouble)
  have s: "fadd (dbl 6966505673588735 (- 46)) (dbl 100 0) = roundDouble 14003380091355135 (- 46)"
    by (simp add: fadd_dbl isDouble_def)
  have b: "bits 14003380091355135 = 54"
    by (rule bits_unique [of 53, simplified]) simp_all
  have e: "roundEven 14003380091355135 (Suc 0) = 7001690045677568"
    by (simp add: roundEven_def Let_def)
  have b2: "bits 7001690045677568 = 53"
    by (rule bits_unique [of 52, simplified]) simp_all
  have "roundDouble 14003380091355135 (- 46)
          = Finite (dyadicValue (roundEven 14003380091355135 1) (- 46 + int 1))"
    by (rule roundDouble_round) (simp_all add: b e b2)
  then have sum: "fadd (dbl 6966505673588735 (- 46)) (dbl 100 0) = Finite 199"
    by (simp add: s e dyadicValue_def power_int_minus)
  have dif: "fsub (dbl 200 0) (dbl 1 0) = Finite 199"
    by (simp add: evalDouble)
  have right: "\<not> canScrollRight (updateScrollState (Some nearEndContainer) idleState)"
    by (simp add: canScrollRight_update nearEndContainer_def sum dif)
  have v: "valueOf (scrollLeft nearEndContainer) = 6966505673588735 / 70368744177664"
    "valueOf (scrollWidth nearEndContainer) = 200"
    "valueOf (clientWidth nearEndContainer) = 100"
    by (simp_all add: nearEndContainer_def evalDouble power_int_minus)
  show ?thesis
    using right by (simp add: canScrollLeft_update r v)
qed

text \<open>
  C7. With an available container whose child list is empty, \<^verbatim>\<open>updateScrollState\<close>
  recomputes the two flags and changes nothing else: the active index and the live
  region keep their values.
\<close>

theorem no_children_keeps_active_index:
  assumes "childList el = []"
  shows "updateScrollState (Some el) st
           = st\<lparr>canScrollLeft := lessNumber (toNumber (dbl 0 0)) (toNumber (scrollLeft el)),
                canScrollRight := lessNumber (fadd (scrollLeft el) (clientWidth el))
                                    (fsub (scrollWidth el) (dbl 1 0))\<rparr>
    \<and> activeIndex (updateScrollState (Some el) st) = activeIndex st
    \<and> liveText (updateScrollState (Some el) st) = liveText st"
  using assms by (simp add: updateScrollState_def Let_def)

theorem no_children_keeps_active_index_witness:
  "childList bareContainer = []
   \<and> updateScrollState (Some bareContainer) (idleState\<lparr>activeIndex := 4\<rparr>)
       = \<lparr>canScrollLeft = True, canScrollRight = False, activeIndex = 4, liveText = Some []\<rparr>"
proof -
  have h: "childList bareContainer = []"
    by (simp add: bareContainer_def childList_def)
  have f: "lessNumber (toNumber (dbl 0 0)) (toNumber (scrollLeft bareContainer))"
    "\<not> lessNumber (fadd (scrollLeft bareContainer) (clientWidth bareContainer))
         (fsub (scrollWidth bareContainer) (dbl 1 0))"
    by (simp_all add: bareContainer_def toNumber_def evalDouble)
  have i: "idleState\<lparr>activeIndex := 4\<rparr>
             = \<lparr>canScrollLeft = False, canScrollRight = True, activeIndex = 4, liveText = Some []\<rparr>"
    by (simp add: idleState_def initialState_def)
  from no_children_keeps_active_index [OF h, of "idleState\<lparr>activeIndex := 4\<rparr>"]
  have "updateScrollState (Some bareContainer) (idleState\<lparr>activeIndex := 4\<rparr>)
          = (idleState\<lparr>activeIndex := 4\<rparr>)\<lparr>canScrollLeft := True, canScrollRight := False\<rparr>"
    using f by simp
  then have "updateScrollState (Some bareContainer) (idleState\<lparr>activeIndex := 4\<rparr>)
       = \<lparr>canScrollLeft = True, canScrollRight = False, activeIndex = 4, liveText = Some []\<rparr>"
    by (simp add: i)
  with h show ?thesis by simp
qed

text \<open>
  C9. \<^verbatim>\<open>updateScrollState\<close> is a function of the container geometry and the state it
  starts from, and calling it a second time on the same geometry changes nothing.
\<close>

theorem updateScrollState_idempotent:
  "updateScrollState ref (updateScrollState ref st) = updateScrollState ref st"
  by (cases ref) (simp_all add: updateScrollState_def Let_def)

subsection \<open>Keys\<close>

text \<open>
  C5. On an available container, \<^verbatim>\<open>ArrowRight\<close> requests one smooth scroll by exactly
  \<open>clientWidth\<close> and \<^verbatim>\<open>ArrowLeft\<close> one by exactly \<open>- clientWidth\<close> (the products
  \<open>1 * clientWidth\<close> and \<open>-1 * clientWidth\<close> are not rounded), both after
  \<^verbatim>\<open>preventDefault\<close>; \<^verbatim>\<open>scrollByViewport(dir)\<close> requests the product \<open>dir * clientWidth\<close>
  and nothing else; any other key makes no request and leaves the default behaviour
  alone.
\<close>

theorem directional_keys:
  "onKeyDown ''ArrowRight'' (Some el)
     = \<lparr>defaultPrevented = True,
        scrollCalls = [\<lparr>left = Finite (valueOf (clientWidth el)), behavior = Smooth\<rparr>]\<rparr>
   \<and> onKeyDown ''ArrowLeft'' (Some el)
     = \<lparr>defaultPrevented = True,
        scrollCalls = [\<lparr>left = Finite (- valueOf (clientWidth el)), behavior = Smooth\<rparr>]\<rparr>
   \<and> scrollByViewport dir (Some el) = [\<lparr>left = fmul dir (clientWidth el), behavior = Smooth\<rparr>]
   \<and> (key \<noteq> ''ArrowRight'' \<and> key \<noteq> ''ArrowLeft'' \<longrightarrow>
        onKeyDown key ref = \<lparr>defaultPrevented = False, scrollCalls = []\<rparr>)"
  by (simp add: onKeyDown_def scrollByViewport_def fmul_one fmul_minus_one)

theorem directional_keys_witness:
  "''Enter'' \<noteq> ''ArrowRight'' \<and> ''Enter'' \<noteq> ''ArrowLeft''
   \<and> onKeyDown ''Enter'' (Some tieContainer) = \<lparr>defaultPrevented = False, scrollCalls = []\<rparr>
   \<and> scrollCalls (onKeyDown ''ArrowRight'' (Some tieContainer))
       = [\<lparr>left = Finite 100, behavior = Smooth\<rparr>]
   \<and> scrollCalls (onKeyDown ''ArrowLeft'' (Some tieContainer))
       = [\<lparr>left = Finite (- 100), behavior = Smooth\<rparr>]"
proof -
  have v: "valueOf (clientWidth tieContainer) = 100"
    by (simp add: tieContainer_def evalDouble)
  show ?thesis
    using directional_keys [of tieContainer "dbl 1 0" "''Enter''" "Some tieContainer"]
    by (simp add: v)
qed

subsection \<open>Items, cards and announcements\<close>

text \<open>
  C4. With announcements enabled (also by default) and the live region mounted, a
  scroll or resize notification that changes the active index to one that has an item
  replaces the text of the live region by
  \<^verbatim>\<open>Showing testimonial {activeIndex+1} of {totalSlides}: {name}, {role}\<close>
  for the new active item.
\<close>

theorem announcement_on_active_index_change:
  assumes "withDefault True (announceChanges p)" and "liveText st = Some old"
    and "activeIndex (updateScrollState ref st) \<noteq> activeIndex st"
    and "activeIndex (updateScrollState ref st) < length (testimonials (items p))"
  shows "activeIndex (scrollOrResize p ref st) = activeIndex (updateScrollState ref st)
    \<and> liveText (scrollOrResize p ref st)
       = Some (''Showing testimonial ''
               @ numberToString (activeIndex (updateScrollState ref st) + 1)
               @ '' of '' @ numberToString (length (testimonials (items p)))
               @ '': '' @ name (testimonials (items p) ! activeIndex (updateScrollState ref st))
               @ '', '' @ role (testimonials (items p) ! activeIndex (updateScrollState ref st)))"
proof -
  let ?st' = "updateScrollState ref st"
  have run: "scrollOrResize p ref st = announceEffect p ?st'"
    using assms(3) by (simp add: scrollOrResize_def Let_def)
  have live: "liveText ?st' = Some old"
    using assms(2) by (simp add: liveText_update)
  from announceEffect_text [OF assms(1) live assms(4)] run
  show ?thesis
    by (simp add: announceEffect_frame announcement_def totalSlides_def)
qed

theorem announcement_on_active_index_change_witness:
  "withDefault True (announceChanges defaultProps)
   \<and> liveText idleState = Some []
   \<and> activeIndex (updateScrollState (Some scrolledContainer) idleState) \<noteq> activeIndex idleState
   \<and> activeIndex (updateScrollState (Some scrolledContainer) idleState)
       < length (testimonials (items defaultProps))
   \<and> liveText (scrollOrResize defaultProps (Some scrolledContainer) idleState)
       = Some ''Showing testimonial 3 of 8: Marcus Lee, CTO, NorthStar''"
proof -
  have e: "activeIndex (updateScrollState (Some scrolledContainer) idleState) = 2"
    by (simp add: updateScrollState_def scrolledContainer_def childList_def closestIdx_def
        Let_def evalDouble)
  have a: "withDefault True (announceChanges defaultProps)"
    by (simp add: defaultProps_def withDefault_def)
  have l: "liveText idleState = Some []"
    by (simp add: idleState_def initialState_def)
  have i0: "activeIndex idleState = 0"
    by (simp add: idleState_def initialState_def)
  have c: "activeIndex (updateScrollState (Some scrolledContainer) idleState) \<noteq> activeIndex idleState"
    by (simp only: e i0)
  have t: "testimonials (items defaultProps) = defaultTestimonials"
    by (simp add: defaultProps_def testimonials_def)
  have x: "activeIndex (updateScrollState (Some scrolledContainer) idleState)
             < length (testimonials (items defaultProps))"
    by (simp add: e t length_defaultTestimonials)
  have n3: "numberToString 3 = ''3''" and n8: "numberToString 8 = ''8''"
    by (simp_all add: numberToString.simps digitChar_def)
  have d2: "name (defaultTestimonials ! 2) = ''Marcus Lee''"
    "role (defaultTestimonials ! 2) = ''CTO, NorthStar''"
    by (simp_all add: defaultTestimonials_def)
  from announcement_on_active_index_change [OF a l c x]
  have "liveText (scrollOrResize defaultProps (Some scrolledContainer) idleState)
       = Some ''Showing testimonial 3 of 8: Marcus Lee, CTO, NorthStar''"
    by (simp add: e t length_defaultTestimonials n3 n8 d2)
  with a l c x show ?thesis by simp
qed

text \<open>
  C3, as the code has it. An empty \<^verbatim>\<open>items\<close> array is replaced by the eight built-in
  testimonials: eight cards are rendered, and with announcements enabled and the live
  region mounted, mounting leaves the announcement of a default item in the live region
  (the item at the active index, or the first one should the active index lie past the
  list).
\<close>

theorem empty_items_fall_back_to_defaults:
  assumes "withDefault True ac"
  shows "testimonials (Some []) = defaultTestimonials
    \<and> length (renderCards \<lparr>items = Some [], showStars = ss, announceChanges = ac\<rparr>) = 8
    \<and> (let st = mount \<lparr>items = Some [], showStars = ss, announceChanges = ac\<rparr> ref (Some old);
            shown = (if activeIndex st < 8 then activeIndex st else 0)
        in liveText st = Some (announcement shown 8 (defaultTestimonials ! shown)))"
proof -
  let ?p = "\<lparr>items = Some [], showStars = ss, announceChanges = ac\<rparr>"
  let ?s0 = "initialState (Some old)"
  let ?s1 = "announceEffect ?p ?s0"
  let ?s2 = "updateScrollState ref ?s1"
  have t: "testimonials (Some []) = defaultTestimonials"
    by (simp add: testimonials_def)
  have tot: "totalSlides (Some []) = 8"
    by (simp add: totalSlides_def testimonials_def length_defaultTestimonials)
  have en: "withDefault True (announceChanges ?p)" using assms by simp
  have a1: "activeIndex ?s1 = 0"
    by (simp add: announceEffect_frame initialState_def)
  have l1: "liveText ?s1 = Some (announcement 0 8 (defaultTestimonials ! 0))"
    using announceEffect_text [OF en, of ?s0 old]
    by (simp add: initialState_def t tot length_defaultTestimonials)
  have l2: "liveText ?s2 = Some (announcement 0 8 (defaultTestimonials ! 0))"
    by (simp add: liveText_update l1)
  have cards: "length (renderCards ?p) = 8"
    by (simp add: length_renderCards tot)
  have "let st = mount ?p ref (Some old);
            shown = (if activeIndex st < 8 then activeIndex st else 0)
        in liveText st = Some (announcement shown 8 (defaultTestimonials ! shown))"
  proof (cases "activeIndex ?s2 = 0")
    case True
    then have "mount ?p ref (Some old) = ?s2"
      by (simp add: mount_def scrollOrResize_def Let_def a1)
    with True l2 show ?thesis by (simp add: Let_def)
  next
    case moved: False
    then have m: "mount ?p ref (Some old) = announceEffect ?p ?s2"
      by (simp add: mount_def scrollOrResize_def Let_def a1)
    show ?thesis
    proof (cases "activeIndex ?s2 < 8")
      case True
      then have "activeIndex ?s2 < length (testimonials (items ?p))"
        by (simp add: t length_defaultTestimonials)
      from announceEffect_text [OF en l2 this] True
      show ?thesis
        by (simp add: m Let_def announceEffect_frame t tot)
    next
      case False
      then have "\<not> activeIndex ?s2 < length (testimonials (items ?p))"
        by (simp add: t length_defaultTestimonials)
      then have "announceEffect ?p ?s2 = ?s2" by (rule announceEffect_skip)
      with False l2 show ?thesis by (simp add: m Let_def)
    qed
  qed
  with cards show ?thesis by (simp add: testimonials_def)
qed

theorem empty_items_fall_back_to_defaults_witness:
  "withDefault True (Some True)
   \<and> length (renderCards \<lparr>items = Some [], showStars = Some False, announceChanges = Some True\<rparr>) = 8
   \<and> liveText (mount \<lparr>items = Some [], showStars = Some False, announceChanges = Some True\<rparr>
        (Some scrolledContainer) (Some ''old''))
      = Some ''Showing testimonial 3 of 8: Marcus Lee, CTO, NorthStar''"
proof -
  have h: "withDefault True (Some True)" by (simp add: withDefault_def)
  let ?p = "\<lparr>items = Some [], showStars = Some False, announceChanges = Some True\<rparr>"
  have a: "activeIndex (mount ?p (Some scrolledContainer) (Some ''old'')) = 2"
    by (simp add: mount_def scrollOrResize_def announceEffect_frame Let_def
        updateScrollState_def scrolledContainer_def childList_def closestIdx_def evalDouble)
  have n: "numberToString 3 = ''3''" "numberToString 8 = ''8''"
    by (simp_all add: numberToString.simps digitChar_def)
  have d: "name (defaultTestimonials ! 2) = ''Marcus Lee''"
    "role (defaultTestimonials ! 2) = ''CTO, NorthStar''"
    by (simp_all add: defaultTestimonials_def)
  from empty_items_fall_back_to_defaults [OF h, of "Some False" "Some scrolledContainer" "''old''"]
  show ?thesis
    using h by (simp add: Let_def a announcement_def n d)
qed

text \<open>
  C3 as written expects no card and no announcement for \<^verbatim>\<open>items = []\<close>. The code
  renders eight cards and announces the first default testimonial.
\<close>

theorem empty_items_counterexample:
  "length (renderCards emptyItemsProps) = 8
   \<and> liveText (mount emptyItemsProps None (Some []))
       = Some ''Showing testimonial 1 of 8: Alex Johnson, Product Manager, Bluewave''"
proof -
  have n: "numberToString (Suc 0) = ''1''" "numberToString 8 = ''8''"
    by (simp_all add: numberToString.simps [of "Suc 0"] numberToString.simps [of 8] digitChar_def)
  have t: "testimonials (Some []) = defaultTestimonials"
    by (simp add: testimonials_def)
  have d: "name (defaultTestimonials ! 0) = ''Alex Johnson''"
    "role (defaultTestimonials ! 0) = ''Product Manager, Bluewave''"
    by (simp_all add: defaultTestimonials_def)
  have "length (renderCards emptyItemsProps) = 8"
    by (simp add: renderCards_def emptyItemsProps_def t length_defaultTestimonials Let_def)
  moreover have "liveText (mount emptyItemsProps None (Some []))
       = Some ''Showing testimonial 1 of 8: Alex Johnson, Product Manager, Bluewave''"
    by (simp add: mount_def scrollOrResize_def updateScrollState_def announceEffect_def
        emptyItemsProps_def initialState_def withDefault_def arrayGet_def totalSlides_def t
        length_defaultTestimonials announcement_def n d)
  ultimately show ?thesis by simp
qed

subsection \<open>A null container\<close>

text \<open>
  C6. When the container reference is null, \<^verbatim>\<open>updateScrollState\<close> returns the state it was
  given, so \<^verbatim>\<open>canScrollLeft\<close>, \<^verbatim>\<open>canScrollRight\<close> and \<^verbatim>\<open>activeIndex\<close> keep their values,
  and \<^verbatim>\<open>scrollByViewport\<close> makes no scroll request. Both are total functions with no error
  branch.
\<close>

theorem null_container_noop:
  "updateScrollState None st = st \<and> scrollByViewport dir None = []"
  by (simp add: updateScrollState_def scrollByViewport_def)

end
